theory Spec2Isabelle
  imports Main "HOL-Library.AList"
begin

section \<open>Text\<close>

text \<open>
  A Python \<open>str\<close> is a sequence of Unicode code points; it is modelled as a list of
  natural numbers, one per code point.  \<open>lit\<close> turns an ASCII literal into such a list.
\<close>

type_synonym pystr = "nat list"

definition lit :: "string \<Rightarrow> pystr" where
  "lit s = map of_char s"

text \<open>
  The characters that \<open>str.strip()\<close> removes and that \<open>\s\<close> matches in a \<open>str\<close>
  pattern: both use the interpreter's Unicode whitespace test.
\<close>

definition is_space :: "nat \<Rightarrow> bool" where
  "is_space c \<longleftrightarrow>
     (9 \<le> c \<and> c \<le> 13) \<or> (28 \<le> c \<and> c \<le> 32) \<or> c = 133 \<or> c = 160 \<or> c = 5760 \<or>
     (8192 \<le> c \<and> c \<le> 8202) \<or> c = 8232 \<or> c = 8233 \<or> c = 8239 \<or> c = 8287 \<or> c = 12288"

section \<open>Response sanitizer (process_file, lines 165-167)\<close>

text \<open>\<open>json_response.text.strip()\<close>: whitespace is removed at both ends.\<close>

definition py_strip :: "pystr \<Rightarrow> pystr" where
  "py_strip s = rev (dropWhile is_space (rev (dropWhile is_space s)))"

definition fence :: pystr where
  "fence = lit ''```''"

definition open_marker :: pystr where
  "open_marker = lit ''```json''"

text \<open>
  \<open>re.sub(r'^```json\s*', '', json_text)\<close>.  Without the MULTILINE flag \<open>^\<close> matches at
  position 0 only, so there is at most one substitution: the marker at the very start of
  the text and the whitespace that follows it (\<open>\s*\<close> is greedy).
\<close>

definition sub_open_fence :: "pystr \<Rightarrow> pystr" where
  "sub_open_fence s =
     (if take 7 s = open_marker then dropWhile is_space (drop 7 s) else s)"

text \<open>
  \<open>re.sub(r'\s*```$', '', json_text)\<close>.  \<open>$\<close> matches at the end of the text and just
  before a newline that is its last character.  The pattern matches at a position when the
  maximal run of whitespace there is followed by three backticks and then by the end of the
  text or by one final newline; the leftmost such position is replaced, and what is left
  after it (nothing, or that newline) cannot match again.
\<close>

definition close_match :: "pystr \<Rightarrow> bool" where
  "close_match s =
     (let r = dropWhile is_space s
      in take 3 r = fence \<and> (drop 3 r = [] \<or> drop 3 r = [10]))"

fun sub_close_fence :: "pystr \<Rightarrow> pystr" where
  "sub_close_fence [] = []"
| "sub_close_fence (c # cs) =
     (if close_match (c # cs) then drop 3 (dropWhile is_space (c # cs))
      else c # sub_close_fence cs)"

definition sanitize :: "pystr \<Rightarrow> pystr" where
  "sanitize raw = sub_close_fence (sub_open_fence (py_strip raw))"

text \<open>The fenced form of a text: opening marker, newline, the text, newline, closing marker.\<close>

definition fenced :: "pystr \<Rightarrow> pystr" where
  "fenced j = open_marker @ [10] @ j @ [10] @ fence"

text \<open>A text contains a fence marker when three backticks occur somewhere in it.\<close>

fun has_fence :: "pystr \<Rightarrow> bool" where
  "has_fence [] = False"
| "has_fence (c # cs) = (take 3 (c # cs) = fence \<or> has_fence cs)"

section \<open>Exceptions\<close>

text \<open>
  The exceptions that the modelled code and its libraries raise.  All of them are subclasses
  of \<open>Exception\<close>, so \<open>except Exception\<close> catches each of them, while
  \<open>except json.JSONDecodeError\<close> catches \<open>JSONDecodeError\<close> only.  A raise is the
  \<open>Inl\<close> branch of a sum.
\<close>

datatype exn =
    JSONDecodeError
  | RecursionError
  | UnboundLocalError
  | IndexError
  | FileNotFoundError
  | OSError
  | PDFPageCountError
  | UnidentifiedImageError
  | BackendError

section \<open>JSON values and a decoder\<close>

text \<open>
  The values \<open>json.loads\<close> returns.  A float is kept as the lexeme it was read from; a
  \<open>dict\<close> is an association list in insertion order.
\<close>

datatype json =
    JNull
  | JBool bool
  | JInt int
  | JFloat pystr
  | JString pystr
  | JArray "json list"
  | JObject "(pystr \<times> json) list"

text \<open>
  \<open>json.loads\<close> belongs to the standard library, not to the program; process_file below
  takes the decoder as a parameter.  \<open>json_loads\<close> is a decoder following the library's
  scanner (strict mode), used where a concrete decoder is needed.
\<close>

definition json_ws :: "nat \<Rightarrow> bool" where
  "json_ws c \<longleftrightarrow> c = 32 \<or> c = 9 \<or> c = 10 \<or> c = 13"

definition skip_ws :: "pystr \<Rightarrow> pystr" where
  "skip_ws s = dropWhile json_ws s"

definition is_digit :: "nat \<Rightarrow> bool" where
  "is_digit c \<longleftrightarrow> 48 \<le> c \<and> c \<le> 57"

definition hexval :: "nat \<Rightarrow> nat option" where
  "hexval c =
     (if 48 \<le> c \<and> c \<le> 57 then Some (c - 48)
      else if 97 \<le> c \<and> c \<le> 102 then Some (c - 87)
      else if 65 \<le> c \<and> c \<le> 70 then Some (c - 55)
      else None)"

text \<open>Four hexadecimal digits of a \<open>\uXXXX\<close> escape.\<close>

definition decode_uXXXX :: "pystr \<Rightarrow> nat option" where
  "decode_uXXXX s =
     (case map hexval (take 4 s) of
        [Some a, Some b, Some c, Some d] \<Rightarrow> Some (((a * 16 + b) * 16 + c) * 16 + d)
      | _ \<Rightarrow> None)"

definition unescape :: "nat \<Rightarrow> nat option" where
  "unescape e =
     (if e = 34 \<or> e = 92 \<or> e = 47 then Some e
      else if e = 98 then Some 8
      else if e = 102 then Some 12
      else if e = 110 then Some 10
      else if e = 114 then Some 13
      else if e = 116 then Some 9
      else None)"

definition cons_str :: "nat \<Rightarrow> (pystr \<times> pystr) option \<Rightarrow> (pystr \<times> pystr) option" where
  "cons_str c r = (case r of None \<Rightarrow> None | Some (str, rest) \<Rightarrow> Some (c # str, rest))"

text \<open>
  The body of a string, after its opening quote: the decoded characters and the text after
  the closing quote.  A control character, an unknown escape and a missing closing quote
  are errors; a high surrogate followed by a low surrogate escape is joined.
\<close>

fun scanstring :: "pystr \<Rightarrow> (pystr \<times> pystr) option" where
  "scanstring [] = None"
| "scanstring (c # cs) =
     (if c = 34 then Some ([], cs)
      else if c = 92 then
        (case cs of
           [] \<Rightarrow> None
         | e # es \<Rightarrow>
             if e = 117 then
               (case decode_uXXXX es of
                  None \<Rightarrow> None
                | Some uni \<Rightarrow>
                    if 55296 \<le> uni \<and> uni \<le> 56319 \<and> take 2 (drop 4 es) = [92, 117]
                       \<and> 10 < length es
                    then (case decode_uXXXX (drop 6 es) of
                            None \<Rightarrow> None
                          | Some uni2 \<Rightarrow>
                              if 56320 \<le> uni2 \<and> uni2 \<le> 57343
                              then cons_str (65536 + (uni - 55296) * 1024 + (uni2 - 56320))
                                     (scanstring (drop 10 es))
                              else cons_str uni (scanstring (drop 4 es)))
                    else cons_str uni (scanstring (drop 4 es)))
             else (case unescape e of
                     None \<Rightarrow> None
                   | Some ch \<Rightarrow> cons_str ch (scanstring es)))
      else if c < 32 then None
      else cons_str c (scanstring cs))"

definition digits_val :: "pystr \<Rightarrow> nat" where
  "digits_val ds = foldl (\<lambda>a d. 10 * a + (d - 48)) 0 ds"

text \<open>
  A number, by the scanner's pattern
  \<open>(-?(?:0|[1-9][0-9]*))(\.[0-9]+)?([eE][-+]?[0-9]+)?\<close>: an \<open>int\<close> when there is neither
  fraction nor exponent, a float otherwise.
\<close>

definition scan_int_part :: "pystr \<Rightarrow> (pystr \<times> pystr) option" where
  "scan_int_part s =
     (case s of
        [] \<Rightarrow> None
      | c # cs \<Rightarrow>
          if c = 48 then Some ([48], cs)
          else if 49 \<le> c \<and> c \<le> 57 then Some (takeWhile is_digit s, dropWhile is_digit s)
          else None)"

definition scan_frac :: "pystr \<Rightarrow> pystr \<times> pystr" where
  "scan_frac s =
     (case s of
        c # d # ds \<Rightarrow>
          if c = 46 \<and> is_digit d
          then (c # takeWhile is_digit (d # ds), dropWhile is_digit (d # ds))
          else ([], s)
      | _ \<Rightarrow> ([], s))"

definition scan_exp :: "pystr \<Rightarrow> pystr \<times> pystr" where
  "scan_exp s =
     (case s of
        [] \<Rightarrow> ([], s)
      | c # cs \<Rightarrow>
          if c = 101 \<or> c = 69 then
            (let sgn = (if take 1 cs = [43] \<or> take 1 cs = [45] then take 1 cs else []);
                 ds = drop (length sgn) cs
             in if takeWhile is_digit ds = [] then ([], s)
                else (c # sgn @ takeWhile is_digit ds, dropWhile is_digit ds))
          else ([], s))"

definition scan_number :: "pystr \<Rightarrow> (json \<times> pystr) option" where
  "scan_number s =
     (let neg = (take 1 s = [45]);
          s1 = (if neg then drop 1 s else s)
      in case scan_int_part s1 of
           None \<Rightarrow> None
         | Some (ip, r1) \<Rightarrow>
             (case scan_frac r1 of
                (fp, r2) \<Rightarrow>
                  (case scan_exp r2 of
                     (ep, r3) \<Rightarrow>
                       if fp = [] \<and> ep = []
                       then Some (JInt (if neg then - int (digits_val ip) else int (digits_val ip)), r1)
                       else Some (JFloat ((if neg then [45] else []) @ ip @ fp @ ep), r3))))"

text \<open>\<open>dict(pairs)\<close>: a repeated key keeps its first position and takes the last value.\<close>

definition dict_of :: "(pystr \<times> json) list \<Rightarrow> (pystr \<times> json) list" where
  "dict_of pairs = foldl (\<lambda>d kv. AList.update (fst kv) (snd kv) d) [] pairs"

text \<open>
  The recursive scanner.  The first argument bounds the number of nested and successive
  calls; when it is used up the result is \<open>RecursionError\<close>, the exception of the library
  when its own nesting bound is exceeded.  \<open>parse_array\<close> stands at the first character of
  an element, \<open>parse_object\<close> just after the opening quote of a key.
\<close>

fun scan_once :: "nat \<Rightarrow> pystr \<Rightarrow> exn + json \<times> pystr"
  and parse_array :: "nat \<Rightarrow> json list \<Rightarrow> pystr \<Rightarrow> exn + json \<times> pystr"
  and parse_object :: "nat \<Rightarrow> (pystr \<times> json) list \<Rightarrow> pystr \<Rightarrow> exn + json \<times> pystr"
where
  "scan_once 0 s = Inl RecursionError"
| "scan_once (Suc n) [] = Inl JSONDecodeError"
| "scan_once (Suc n) (c # cs) =
     (if c = 34 then
        (case scanstring cs of
           None \<Rightarrow> Inl JSONDecodeError
         | Some (str, rest) \<Rightarrow> Inr (JString str, rest))
      else if c = 123 then
        (case skip_ws cs of
           [] \<Rightarrow> Inl JSONDecodeError
         | d # ds \<Rightarrow>
             if d = 125 then Inr (JObject [], ds)
             else if d = 34 then parse_object n [] ds
             else Inl JSONDecodeError)
      else if c = 91 then
        (case skip_ws cs of
           [] \<Rightarrow> Inl JSONDecodeError
         | d # ds \<Rightarrow>
             if d = 93 then Inr (JArray [], ds)
             else parse_array n [] (d # ds))
      else if take 4 (c # cs) = lit ''null'' then Inr (JNull, drop 4 (c # cs))
      else if take 4 (c # cs) = lit ''true'' then Inr (JBool True, drop 4 (c # cs))
      else if take 5 (c # cs) = lit ''false'' then Inr (JBool False, drop 5 (c # cs))
      else
        (case scan_number (c # cs) of
           Some r \<Rightarrow> Inr r
         | None \<Rightarrow>
             if take 3 (c # cs) = lit ''NaN'' then Inr (JFloat (lit ''NaN''), drop 3 (c # cs))
             else if take 8 (c # cs) = lit ''Infinity''
               then Inr (JFloat (lit ''Infinity''), drop 8 (c # cs))
             else if take 9 (c # cs) = lit ''-Infinity''
               then Inr (JFloat (lit ''-Infinity''), drop 9 (c # cs))
             else Inl JSONDecodeError))"
| "parse_array 0 values s = Inl RecursionError"
| "parse_array (Suc n) values s =
     (case scan_once n s of
        Inl e \<Rightarrow> Inl e
      | Inr (v, rest) \<Rightarrow>
          (case skip_ws rest of
             [] \<Rightarrow> Inl JSONDecodeError
           | d # ds \<Rightarrow>
               if d = 93 then Inr (JArray (values @ [v]), ds)
               else if d = 44 then parse_array n (values @ [v]) (skip_ws ds)
               else Inl JSONDecodeError))"
| "parse_object 0 pairs s = Inl RecursionError"
| "parse_object (Suc n) pairs s =
     (case scanstring s of
        None \<Rightarrow> Inl JSONDecodeError
      | Some (key, r1) \<Rightarrow>
          (case skip_ws r1 of
             [] \<Rightarrow> Inl JSONDecodeError
           | col # r2 \<Rightarrow>
               if col = 58 then
                 (case scan_once n (skip_ws r2) of
                    Inl e \<Rightarrow> Inl e
                  | Inr (v, r3) \<Rightarrow>
                      (case skip_ws r3 of
                         [] \<Rightarrow> Inl JSONDecodeError
                       | d # ds \<Rightarrow>
                           if d = 125 then Inr (JObject (dict_of (pairs @ [(key, v)])), ds)
                           else if d = 44 then
                             (case skip_ws ds of
                                [] \<Rightarrow> Inl JSONDecodeError
                              | q # qs \<Rightarrow>
                                  if q = 34 then parse_object n (pairs @ [(key, v)]) qs
                                  else Inl JSONDecodeError)
                           else Inl JSONDecodeError))
               else Inl JSONDecodeError))"

text \<open>
  \<open>json.loads(s)\<close>: a leading byte-order mark is refused; whitespace, one value,
  whitespace, and nothing more.
\<close>

definition json_loads :: "pystr \<Rightarrow> exn + json" where
  "json_loads s =
     (if take 1 s = [65279] then Inl JSONDecodeError
      else case scan_once (Suc (length s)) (skip_ws s) of
             Inl e \<Rightarrow> Inl e
           | Inr (v, rest) \<Rightarrow> if skip_ws rest = [] then Inr v else Inl JSONDecodeError)"

section \<open>The world of one run\<close>

text \<open>
  What the program reads and changes outside its own variables: the files on disk (a map
  from path to content), the key given to \<open>genai.configure\<close>, the requests sent to the
  backend so far, and the number of random draws made so far.  Logging is left out.
\<close>

datatype image = Raster "nat list"

datatype prompt = json_prompt | summary_prompt | csv_prompt

datatype part = ImagePart pystr "nat list" | PromptPart prompt

record request =
  req_key :: "pystr option"
  req_parts :: "part list"

record world =
  files :: "pystr \<rightharpoonup> nat list"
  api_key :: "pystr option"
  calls :: "request list"
  draws :: nat

text \<open>The uploaded file: its declared media type and its bytes.\<close>

record upload =
  ftype :: pystr
  fdata :: "nat list"

text \<open>
  The collaborators of the program, which are not part of it: the credential pool read from
  the environment, the random generator, the temporary-file service, the PDF renderer, the
  image library, the generative backend and the JSON decoder.  Each one is a function
  whose result is a value or an exception.
  \<^item> \<open>GEMINI_API_KEYS\<close>: the pool.
  \<^item> \<open>rng k\<close>: the \<open>k\<close>-th raw random draw.
  \<^item> \<open>tmp_create\<close>: \<open>NamedTemporaryFile(delete=False, suffix=".pdf")\<close>, the name of the
    file it created, or its failure.
  \<^item> \<open>tmp_write name data\<close>: \<open>temp_pdf.write(...)\<close>, \<open>None\<close> when the write succeeds.
  \<^item> \<open>pdf_render data\<close>: the pages \<open>convert_from_path\<close> renders from a file's content.
  \<^item> \<open>save_png path image\<close>: the bytes \<open>image.save(path, "PNG")\<close> writes.
  \<^item> \<open>image_open data\<close>: \<open>Image.open\<close>.
  \<^item> \<open>generate k request\<close>: the text of the backend's response to the \<open>k\<close>-th request.
  \<^item> \<open>loads\<close>: \<open>json.loads\<close>.
  \<^item> \<open>open_w path\<close>: \<open>open(path, 'w')\<close>, \<open>None\<close> when the file is opened (created or
    emptied).
  \<^item> \<open>write_text path s\<close>: \<open>f.write(s)\<close> on the file opened at that path, \<open>None\<close> when
    the write succeeds.
  \<^item> \<open>os_remove path\<close>: \<open>os.remove(path)\<close> on an existing file, \<open>None\<close> when the file is
    removed.
\<close>

record env =
  GEMINI_API_KEYS :: "pystr list"
  rng :: "nat \<Rightarrow> nat"
  tmp_create :: "exn + pystr"
  tmp_write :: "pystr \<Rightarrow> nat list \<Rightarrow> exn option"
  pdf_render :: "nat list \<Rightarrow> exn + image list"
  save_png :: "pystr \<Rightarrow> image \<Rightarrow> exn + nat list"
  image_open :: "nat list \<Rightarrow> exn + image"
  generate :: "nat \<Rightarrow> request \<Rightarrow> exn + pystr"
  loads :: "pystr \<Rightarrow> exn + json"
  open_w :: "pystr \<Rightarrow> exn option"
  write_text :: "pystr \<Rightarrow> pystr \<Rightarrow> exn option"
  os_remove :: "pystr \<Rightarrow> exn option"

section \<open>get_random_api_key (lines 27-28)\<close>

text \<open>
  \<open>random.choice\<close> raises \<open>IndexError\<close> on an empty sequence and otherwise returns the
  element at a random index below the length; one draw is consumed.
\<close>

definition get_random_api_key :: "env \<Rightarrow> world \<Rightarrow> (exn + pystr) \<times> world" where
  "get_random_api_key env w =
     (if GEMINI_API_KEYS env = [] then (Inl IndexError, w)
      else (Inr (GEMINI_API_KEYS env ! (rng env (draws w) mod length (GEMINI_API_KEYS env))),
            w\<lparr>draws := Suc (draws w)\<rparr>))"

section \<open>convert_pdf_to_images (lines 30-54)\<close>

text \<open>Decimal digits of a number, as an f-string prints it.\<close>

fun str_nat :: "nat \<Rightarrow> pystr" where
  "str_nat n = (if n < 10 then [48 + n] else str_nat (n div 10) @ [48 + n mod 10])"

declare str_nat.simps [simp del]

text \<open>\<open>f"page_{i+1}.png"\<close>\<close>

definition page_path :: "nat \<Rightarrow> pystr" where
  "page_path i = lit ''page_'' @ str_nat (i + 1) @ lit ''.png''"

text \<open>
  The loop of lines 42-46 from index \<open>i\<close> on: every page is saved and its path appended to
  \<open>images\<close>; the first save that raises ends the loop, with what was appended so far.
\<close>

fun save_pages ::
  "env \<Rightarrow> nat \<Rightarrow> image list \<Rightarrow> pystr list \<Rightarrow> world \<Rightarrow> exn option \<times> pystr list \<times> world"
where
  "save_pages env i [] images w = (None, images, w)"
| "save_pages env i (img # rest) images w =
     (case save_png env (page_path i) img of
        Inl e \<Rightarrow> (Some e, images, w)
      | Inr b \<Rightarrow>
          save_pages env (i + 1) rest (images @ [page_path i])
            (w\<lparr>files := (files w)(page_path i \<mapsto> b)\<rparr>))"

text \<open>\<open>convert_from_path(path)\<close> renders the content of the file at the path.\<close>

definition convert_from_path :: "env \<Rightarrow> world \<Rightarrow> pystr \<Rightarrow> exn + image list" where
  "convert_from_path env w path =
     (case files w path of None \<Rightarrow> Inl FileNotFoundError | Some d \<Rightarrow> pdf_render env d)"

text \<open>
  The body of the \<open>try\<close> (lines 35-46).  It yields the exception that ended it, if any, the
  value of \<open>temp_pdf_path\<close> if the assignment of line 37 was reached, the list \<open>images\<close>,
  and the world.  The temporary file exists from its creation on, since it is opened with
  \<open>delete=False\<close>.
\<close>

definition pdf_try_body ::
  "env \<Rightarrow> upload \<Rightarrow> world \<Rightarrow> exn option \<times> pystr option \<times> pystr list \<times> world"
where
  "pdf_try_body env pdf_file w =
     (case tmp_create env of
        Inl e \<Rightarrow> (Some e, None, [], w)
      | Inr name \<Rightarrow>
          (let w1 = w\<lparr>files := (files w)(name \<mapsto> [])\<rparr>
           in case tmp_write env name (fdata pdf_file) of
                Some e \<Rightarrow> (Some e, None, [], w1)
              | None \<Rightarrow>
                  (let w2 = w1\<lparr>files := (files w1)(name \<mapsto> fdata pdf_file)\<rparr>
                   in case convert_from_path env w2 name of
                        Inl e \<Rightarrow> (Some e, Some name, [], w2)
                      | Inr pdf_images \<Rightarrow>
                          (case save_pages env 0 pdf_images [] w2 of
                             (r, images, w3) \<Rightarrow> (r, Some name, images, w3)))))"

text \<open>\<open>os.unlink(path)\<close>\<close>

definition os_unlink :: "pystr \<Rightarrow> world \<Rightarrow> exn option \<times> world" where
  "os_unlink path w =
     (case files w path of
        None \<Rightarrow> (Some FileNotFoundError, w)
      | Some d \<Rightarrow> (None, w\<lparr>files := (files w)(path := None)\<rparr>))"

text \<open>
  The whole function.  \<open>except Exception\<close> logs and drops whatever the body raised.  The
  \<open>finally\<close> block then reads \<open>temp_pdf_path\<close>: unassigned, the read raises
  \<open>UnboundLocalError\<close>; assigned, the file is unlinked and \<open>images\<close> is returned.
\<close>

definition convert_pdf_to_images :: "env \<Rightarrow> upload \<Rightarrow> world \<Rightarrow> (exn + pystr list) \<times> world" where
  "convert_pdf_to_images env pdf_file w =
     (case pdf_try_body env pdf_file w of
        (raised, temp_pdf_path, images, w1) \<Rightarrow>
          (case temp_pdf_path of
             None \<Rightarrow> (Inl UnboundLocalError, w1)
           | Some p \<Rightarrow>
               (case os_unlink p w1 of
                  (Some e, w2) \<Rightarrow> (Inl e, w2)
                | (None, w2) \<Rightarrow> (Inr images, w2))))"

section \<open>process_file (lines 72-233)\<close>

text \<open>image_to_bytes (lines 56-58)\<close>

definition image_to_bytes :: "world \<Rightarrow> pystr \<Rightarrow> exn + nat list" where
  "image_to_bytes w image_path =
     (case files w image_path of None \<Rightarrow> Inl FileNotFoundError | Some d \<Rightarrow> Inr d)"

text \<open>Lines 73-79: the page images of the document, as a list of paths.\<close>

definition temp_image_path :: pystr where
  "temp_image_path = lit ''temp_image.png''"

definition normalizer :: "env \<Rightarrow> upload \<Rightarrow> world \<Rightarrow> (exn + pystr list) \<times> world" where
  "normalizer env file w =
     (if ftype file = lit ''application/pdf'' then convert_pdf_to_images env file w
      else case image_open env (fdata file) of
             Inl e \<Rightarrow> (Inl e, w)
           | Inr img \<Rightarrow>
               (case save_png env temp_image_path img of
                  Inl e \<Rightarrow> (Inl e, w)
                | Inr b \<Rightarrow>
                    (Inr [temp_image_path], w\<lparr>files := (files w)(temp_image_path \<mapsto> b)\<rparr>)))"

text \<open>Line 81: one part per path, tagged \<open>image/png\<close>.\<close>

fun image_bytes_list :: "world \<Rightarrow> pystr list \<Rightarrow> exn + part list" where
  "image_bytes_list w [] = Inr []"
| "image_bytes_list w (path # paths) =
     (case image_to_bytes w path of
        Inl e \<Rightarrow> Inl e
      | Inr d \<Rightarrow>
          (case image_bytes_list w paths of
             Inl e \<Rightarrow> Inl e
           | Inr ps \<Rightarrow> Inr (ImagePart (lit ''image/png'') d # ps)))"

text \<open>
  \<open>model.generate_content(content)\<close> and the \<open>.text\<close> of its response: the request goes
  out under the key configured at that moment.
\<close>

definition generate_content :: "env \<Rightarrow> part list \<Rightarrow> world \<Rightarrow> (exn + pystr) \<times> world" where
  "generate_content env content w =
     (let r = \<lparr>req_key = api_key w, req_parts = content\<rparr>
      in (generate env (length (calls w)) r, w\<lparr>calls := calls w @ [r]\<rparr>))"

text \<open>
  Lines 182-184: every listed path that exists is removed, in order.  A removal that raises
  ends the loop and the exception goes on.
\<close>

fun remove_images :: "env \<Rightarrow> pystr list \<Rightarrow> world \<Rightarrow> exn option \<times> world" where
  "remove_images env [] w = (None, w)"
| "remove_images env (image_path # rest) w =
     (if image_path \<in> dom (files w)
      then (case os_remove env image_path of
              Some x \<Rightarrow> (Some x, w)
            | None \<Rightarrow> remove_images env rest (w\<lparr>files := (files w)(image_path := None)\<rparr>))
      else remove_images env rest w)"

definition diag_path :: pystr where
  "diag_path = lit ''invalid_json_response.txt''"

text \<open>
  Lines 163-184.  The response is sanitized and decoded.  A \<open>JSONDecodeError\<close> is handled:
  \<open>invalid_json_response.txt\<close> is opened for writing, the raw response is written to it,
  the result is set to the empty dict, and the page images are removed.  Nothing guards
  these file operations: an exception of the \<open>open\<close>, of the write or of a removal leaves
  the handler and the function.  So does any exception of the decoder other than
  \<open>JSONDecodeError\<close>.
\<close>

definition parse_json_response ::
  "env \<Rightarrow> pystr list \<Rightarrow> pystr \<Rightarrow> world \<Rightarrow> (exn + json) \<times> world"
where
  "parse_json_response env images raw w =
     (case loads env (sanitize raw) of
        Inr extracted_data \<Rightarrow> (Inr extracted_data, w)
      | Inl e \<Rightarrow>
          if e = JSONDecodeError
          then (case open_w env diag_path of
                  Some x \<Rightarrow> (Inl x, w)
                | None \<Rightarrow>
                    (let w1 = w\<lparr>files := (files w)(diag_path \<mapsto> [])\<rparr>
                     in case write_text env diag_path raw of
                          Some x \<Rightarrow> (Inl x, w1)
                        | None \<Rightarrow>
                            (let w2 = w1\<lparr>files := (files w1)(diag_path \<mapsto> raw)\<rparr>
                             in case remove_images env images w2 of
                                  (Some x, w3) \<Rightarrow> (Inl x, w3)
                                | (None, w3) \<Rightarrow> (Inr (JObject []), w3))))
          else (Inl e, w))"

text \<open>
  Lines 83-233, after the page images were read.  The key is drawn and configured once;
  then come the three calls of the backend, each with all page images and one prompt.
\<close>

definition run_passes ::
  "env \<Rightarrow> pystr list \<Rightarrow> part list \<Rightarrow> world \<Rightarrow> (exn + json \<times> pystr \<times> pystr) \<times> world"
where
  "run_passes env images image_bytes w =
     (case get_random_api_key env w of
        (Inl e, w1) \<Rightarrow> (Inl e, w1)
      | (Inr key, w1) \<Rightarrow>
     (case generate_content env (image_bytes @ [PromptPart json_prompt])
             (w1\<lparr>api_key := Some key\<rparr>) of
        (Inl e, w2) \<Rightarrow> (Inl e, w2)
      | (Inr json_response, w2) \<Rightarrow>
     (case parse_json_response env images json_response w2 of
        (Inl e, w3) \<Rightarrow> (Inl e, w3)
      | (Inr extracted_data, w3) \<Rightarrow>
     (case generate_content env (image_bytes @ [PromptPart summary_prompt]) w3 of
        (Inl e, w4) \<Rightarrow> (Inl e, w4)
      | (Inr summary_text, w4) \<Rightarrow>
     (case generate_content env (image_bytes @ [PromptPart csv_prompt]) w4 of
        (Inl e, w5) \<Rightarrow> (Inl e, w5)
      | (Inr csv_text, w5) \<Rightarrow> (Inr (extracted_data, summary_text, csv_text), w5))))))"

definition process_file ::
  "env \<Rightarrow> upload \<Rightarrow> world \<Rightarrow> (exn + json \<times> pystr \<times> pystr) \<times> world"
where
  "process_file env file w =
     (case normalizer env file w of
        (Inl e, w1) \<Rightarrow> (Inl e, w1)
      | (Inr images, w1) \<Rightarrow>
          (case image_bytes_list w1 images of
             Inl e \<Rightarrow> (Inl e, w1)
           | Inr image_bytes \<Rightarrow> run_passes env images image_bytes w1))"

section \<open>Notions used in the statements\<close>

text \<open>The key that \<open>random.choice\<close> picks in world \<open>w\<close>.\<close>

definition chosen_key :: "env \<Rightarrow> world \<Rightarrow> pystr" where
  "chosen_key env w = GEMINI_API_KEYS env ! (rng env (draws w) mod length (GEMINI_API_KEYS env))"

text \<open>The request of one extraction pass: a key, the page images and one prompt.\<close>

definition pass_request :: "pystr \<Rightarrow> part list \<Rightarrow> prompt \<Rightarrow> request" where
  "pass_request key image_bytes p =
     \<lparr>req_key = Some key, req_parts = image_bytes @ [PromptPart p]\<rparr>"

text \<open>
  The number of pages, counted from index \<open>i\<close>, that are saved before the first save that
  raises; and that number for a whole upload (none when the renderer itself raises).
\<close>

fun saved_upto :: "env \<Rightarrow> nat \<Rightarrow> image list \<Rightarrow> nat" where
  "saved_upto env i [] = 0"
| "saved_upto env i (img # rest) =
     (case save_png env (page_path i) img of
        Inl e \<Rightarrow> 0
      | Inr b \<Rightarrow> Suc (saved_upto env (i + 1) rest))"


definition all_saved :: "env \<Rightarrow> image list \<Rightarrow> bool" where
  "all_saved env pdf_images = (saved_upto env 0 pdf_images = length pdf_images)"

section \<open>Sample runs\<close>

text \<open>
  Concrete collaborators for running the program: two keys, the random draws 0, 1, 2, ...,
  a renderer that yields one page per byte of the file, an encoder that puts a four-byte
  signature before the pixels, a backend that answers each prompt with a fixed text (the
  answer to the JSON prompt is a parameter), and \<open>json_loads\<close> as decoder.
\<close>

definition demo_render :: "nat list \<Rightarrow> exn + image list" where
  "demo_render d = Inr (map (\<lambda>b. Raster [b]) d)"

definition demo_save :: "pystr \<Rightarrow> image \<Rightarrow> exn + nat list" where
  "demo_save path img = (case img of Raster px \<Rightarrow> Inr (137 # 80 # 78 # 71 # px))"

definition demo_open :: "nat list \<Rightarrow> exn + image" where
  "demo_open d = Inr (Raster d)"

definition demo_generate :: "pystr \<Rightarrow> nat \<Rightarrow> request \<Rightarrow> exn + pystr" where
  "demo_generate json_text k r =
     (if PromptPart json_prompt \<in> set (req_parts r) then Inr json_text
      else if PromptPart summary_prompt \<in> set (req_parts r) then Inr (lit ''An invoice.'')
      else Inr (lit ''Item 1,2,$10.00,$20.00''))"

definition no_write_error :: "pystr \<Rightarrow> nat list \<Rightarrow> exn option" where
  "no_write_error name d = None"

definition no_path_error :: "pystr \<Rightarrow> exn option" where
  "no_path_error path = None"

definition no_text_error :: "pystr \<Rightarrow> pystr \<Rightarrow> exn option" where
  "no_text_error path s = None"

definition demo_env :: "pystr \<Rightarrow> env" where
  "demo_env json_text =
     \<lparr>GEMINI_API_KEYS = [lit ''key-A'', lit ''key-B''],
      rng = id,
      tmp_create = Inr (lit ''/tmp/tmpk3v9.pdf''),
      tmp_write = no_write_error,
      pdf_render = demo_render,
      save_png = demo_save,
      image_open = demo_open,
      generate = demo_generate json_text,
      loads = json_loads,
      open_w = no_path_error,
      write_text = no_text_error,
      os_remove = no_path_error\<rparr>"

definition valid_json :: pystr where
  "valid_json = lit ''{\"a\": 1}''"

definition prose_json :: pystr where
  "prose_json = lit ''Here is the data:\<newline>```json\<newline>{\"a\": 1}\<newline>```''"

definition truncated_json :: pystr where
  "truncated_json = lit ''{\"a\": 1,''"

text \<open>
  A renderer that rejects the file, an encoder that fails on the second page, a full disk
  (for the temporary file, for a text file), a file that may not be removed.
\<close>

definition render_fails :: "nat list \<Rightarrow> exn + image list" where
  "render_fails d = Inl PDFPageCountError"

definition save_fails_on_2 :: "pystr \<Rightarrow> image \<Rightarrow> exn + nat list" where
  "save_fails_on_2 path img = (if path = page_path 1 then Inl OSError else demo_save path img)"

definition disk_full :: "pystr \<Rightarrow> nat list \<Rightarrow> exn option" where
  "disk_full name d = Some OSError"

definition text_disk_full :: "pystr \<Rightarrow> pystr \<Rightarrow> exn option" where
  "text_disk_full path s = Some OSError"

definition remove_denied :: "pystr \<Rightarrow> exn option" where
  "remove_denied path = Some OSError"

definition env_render_fails :: env where
  "env_render_fails = (demo_env valid_json)\<lparr>pdf_render := render_fails\<rparr>"

definition env_save_fails :: env where
  "env_save_fails = (demo_env valid_json)\<lparr>save_png := save_fails_on_2\<rparr>"

definition env_disk_full :: env where
  "env_disk_full = (demo_env valid_json)\<lparr>tmp_write := disk_full\<rparr>"

definition env_text_disk_full :: env where
  "env_text_disk_full = (demo_env truncated_json)\<lparr>write_text := text_disk_full\<rparr>"

definition env_remove_denied :: env where
  "env_remove_denied = (demo_env truncated_json)\<lparr>os_remove := remove_denied\<rparr>"

definition demo_png :: upload where
  "demo_png = \<lparr>ftype = lit ''image/png'', fdata = [1, 2, 3]\<rparr>"

definition demo_jpeg :: upload where
  "demo_jpeg = \<lparr>ftype = lit ''image/jpeg'', fdata = [4, 5, 6]\<rparr>"

definition demo_pdf :: upload where
  "demo_pdf = \<lparr>ftype = lit ''application/pdf'', fdata = [7, 8, 9]\<rparr>"

definition w0 :: world where
  "w0 = \<lparr>files = Map.empty, api_key = None, calls = [], draws = 0\<rparr>"

section \<open>Facts about the sanitizer\<close>

lemma fence_simp: "fence = [96, 96, 96]"
  by (simp add: fence_def lit_def)

lemma open_marker_simp: "open_marker = [96, 96, 96, 106, 115, 111, 110]"
  by (simp add: open_marker_def lit_def)

lemma has_fence_iff: "has_fence t \<longleftrightarrow> (\<exists>xs ys. t = xs @ fence @ ys)"
proof (induction t)
  case Nil
  then show ?case by (simp add: fence_simp)
next
  case (Cons c cs)
  show ?case
  proof
    assume "has_fence (c # cs)"
    then consider "take 3 (c # cs) = fence" | "has_fence cs" by auto
    then show "\<exists>xs ys. c # cs = xs @ fence @ ys"
    proof cases
      case 1
      then have "c # cs = [] @ fence @ drop 3 (c # cs)"
        by (metis append_Nil append_take_drop_id)
      then show ?thesis by blast
    next
      case 2
      then obtain xs ys where "cs = xs @ fence @ ys" using Cons.IH by blast
      then have "c # cs = (c # xs) @ fence @ ys" by simp
      then show ?thesis by blast
    qed
  next
    assume "\<exists>xs ys. c # cs = xs @ fence @ ys"
    then obtain xs ys where e: "c # cs = xs @ fence @ ys" by blast
    show "has_fence (c # cs)"
    proof (cases xs)
      case Nil
      then have "take 3 (c # cs) = fence" using e by (simp add: fence_simp)
      then show ?thesis by simp
    next
      case (Cons x xs')
      then have "cs = xs' @ fence @ ys" using e by simp
      then have "has_fence cs" using Cons.IH by blast
      then show ?thesis by simp
    qed
  qed
qed

lemma not_space_backtick: "\<not> is_space 96" by (simp add: is_space_def)
lemma space_nl: "is_space 10" by (simp add: is_space_def)


lemma close_match_short: "close_match s \<Longrightarrow> length (dropWhile is_space s) \<le> 4"
proof -
  assume a: "close_match s"
  define r where "r = dropWhile is_space s"
  have d: "drop 3 r = [] \<or> drop 3 r = [10]"
    using a unfolding close_match_def r_def Let_def by auto
  have "length r \<le> 4"
  proof (rule disjE [OF d])
    assume "drop 3 r = []"
    then show ?thesis by simp
  next
    assume e: "drop 3 r = [10]"
    show ?thesis using arg_cong [OF e, of length] by simp
  qed
  then show ?thesis unfolding r_def .
qed

lemma close_match_has_fence: "close_match s \<Longrightarrow> has_fence s"
proof -
  assume a: "close_match s"
  define r where "r = dropWhile is_space s"
  have "take 3 r = fence" using a unfolding close_match_def r_def Let_def by auto
  then have "r = fence @ drop 3 r" by (metis append_take_drop_id)
  then have "s = takeWhile is_space s @ fence @ drop 3 r"
    unfolding r_def by (metis takeWhile_dropWhile_id)
  then show ?thesis unfolding has_fence_iff by blast
qed

lemma sub_close_fence_id: "\<not> has_fence s \<Longrightarrow> sub_close_fence s = s"
proof (induction s)
  case Nil
  then show ?case by simp
next
  case (Cons c cs)
  then have "\<not> close_match (c # cs)" using close_match_has_fence by blast
  moreover have "\<not> has_fence cs" using Cons.prems by simp
  ultimately show ?case using Cons.IH by simp
qed

lemma sub_open_fence_id: "\<not> has_fence s \<Longrightarrow> sub_open_fence s = s"
proof -
  assume a: "\<not> has_fence s"
  have "take 7 s \<noteq> open_marker"
  proof
    assume "take 7 s = open_marker"
    then have "s = [] @ fence @ ([106,115,111,110] @ drop 7 s)"
      by (metis append_Nil append_take_drop_id append_assoc open_marker_simp fence_simp append_Cons)
    then show False using a unfolding has_fence_iff by blast
  qed
  then show ?thesis by (simp add: sub_open_fence_def)
qed

lemma py_strip_decomp:
  "s = takeWhile is_space s @ py_strip s @ rev (takeWhile is_space (rev (dropWhile is_space s)))"
proof -
  define d where "d = dropWhile is_space s"
  have "rev d = takeWhile is_space (rev d) @ dropWhile is_space (rev d)" by simp
  then have "d = rev (dropWhile is_space (rev d)) @ rev (takeWhile is_space (rev d))"
    by (metis rev_append rev_rev_ident)
  moreover have "s = takeWhile is_space s @ d" by (simp add: d_def)
  ultimately show ?thesis unfolding py_strip_def d_def by metis
qed

lemma py_strip_no_fence: "\<not> has_fence s \<Longrightarrow> \<not> has_fence (py_strip s)"
proof
  assume a: "\<not> has_fence s" and b: "has_fence (py_strip s)"
  from b obtain xs ys where e: "py_strip s = xs @ fence @ ys" unfolding has_fence_iff by blast
  have "s = (takeWhile is_space s @ xs) @ fence @
              (ys @ rev (takeWhile is_space (rev (dropWhile is_space s))))"
    using py_strip_decomp [of s] e by simp
  then show False using a unfolding has_fence_iff by blast
qed

lemma dropWhile_py_strip: "dropWhile is_space (py_strip s) = py_strip s"
proof (cases "py_strip s")
  case Nil
  then show ?thesis by simp
next
  case (Cons x xs)
  define d where "d = dropWhile is_space s"
  have "rev d = takeWhile is_space (rev d) @ dropWhile is_space (rev d)" by simp
  then have "d = rev (dropWhile is_space (rev d)) @ rev (takeWhile is_space (rev d))"
    by (metis rev_append rev_rev_ident)
  then have dd: "d = (x # xs) @ rev (takeWhile is_space (rev d))"
    using Cons unfolding py_strip_def d_def by simp
  then have "d \<noteq> []" by auto
  then have "\<not> is_space (hd d)" unfolding d_def by (rule hd_dropWhile)
  moreover have "hd d = x" using dd by (metis append_Cons list.sel(1))
  ultimately show ?thesis using Cons by simp
qed

lemma py_strip_idem: "py_strip (py_strip s) = py_strip s"
proof -
  have "dropWhile is_space (rev (py_strip s)) = rev (py_strip s)"
    unfolding py_strip_def by simp
  then show ?thesis
    unfolding py_strip_def [of "py_strip s"] dropWhile_py_strip by simp
qed

lemma sanitize_no_fence: "\<not> has_fence t \<Longrightarrow> sanitize t = py_strip t"
  by (simp add: sanitize_def py_strip_no_fence sub_open_fence_id sub_close_fence_id)

lemma py_strip_id: "s \<noteq> [] \<Longrightarrow> \<not> is_space (hd s) \<Longrightarrow> \<not> is_space (last s) \<Longrightarrow> py_strip s = s"
proof -
  assume a: "s \<noteq> []" "\<not> is_space (hd s)" "\<not> is_space (last s)"
  have 1: "dropWhile is_space s = s" using a by (cases s) auto
  have "rev s \<noteq> []" "\<not> is_space (hd (rev s))" using a by (simp_all add: hd_rev)
  then have 2: "dropWhile is_space (rev s) = rev s" by (cases "rev s") auto
  show ?thesis unfolding py_strip_def 1 2 by simp
qed

lemma sub_close_fence_tail:
  "j \<noteq> [] \<Longrightarrow> \<not> is_space (last j) \<Longrightarrow> sub_close_fence (j @ 10 # fence) = j"
proof (induction j)
  case Nil
  then show ?case by simp
next
  case (Cons c cs)
  have "last (c # cs) \<in> set (c # cs)" by (rule last_in_set) simp
  then have "dropWhile is_space ((c # cs) @ 10 # fence) = dropWhile is_space (c # cs) @ 10 # fence"
    using Cons.prems(2) by (rule dropWhile_append1)
  moreover have "dropWhile is_space (c # cs) \<noteq> []"
    using Cons.prems(2) \<open>last (c # cs) \<in> set (c # cs)\<close> by (metis dropWhile_eq_Nil_conv)
  ultimately have "length (dropWhile is_space ((c # cs) @ 10 # fence)) \<ge> 5"
    by (cases "dropWhile is_space (c # cs)") (simp_all add: fence_simp)
  then have nm: "\<not> close_match ((c # cs) @ 10 # fence)"
    using close_match_short by fastforce
  show ?case
  proof (cases cs)
    case Nil
    have "close_match (10 # fence)"
      by (simp add: close_match_def fence_simp is_space_def)
    then have "sub_close_fence (10 # fence) = []"
      by (simp add: fence_simp is_space_def)
    then show ?thesis using nm Nil by simp
  next
    case (Cons x xs)
    then have "cs \<noteq> []" "\<not> is_space (last cs)" using Cons.prems by auto
    then have "sub_close_fence (cs @ 10 # fence) = cs" by (rule Cons.IH)
    then show ?thesis using nm by simp
  qed
qed

lemma sanitize_fenced:
  assumes "j \<noteq> []" "\<not> is_space (hd j)" "\<not> is_space (last j)"
  shows "sanitize (fenced j) = j"
proof -
  have f: "fenced j = 96 # ([96,96,106,115,111,110,10] @ j @ [10,96,96]) @ [96]"
    by (simp add: fenced_def open_marker_simp fence_simp)
  have "py_strip (fenced j) = fenced j"
    by (rule py_strip_id) (simp_all add: f is_space_def del: append_Cons append_assoc)
  moreover have "sub_open_fence (fenced j) = j @ 10 # fence"
  proof -
    have "sub_open_fence (fenced j) = dropWhile is_space (10 # j @ 10 # fence)"
      by (simp add: sub_open_fence_def fenced_def open_marker_simp)
    also have "\<dots> = dropWhile is_space (j @ 10 # fence)"
      by (simp add: space_nl)
    also have "\<dots> = j @ 10 # fence"
      using assms(1,2) by (cases j) simp_all
    finally show ?thesis .
  qed
  ultimately show ?thesis using assms by (simp add: sanitize_def sub_close_fence_tail)
qed


text \<open>
  C7.  Round trip: for every text \<open>J\<close> of the form \<open>{...}\<close>, sanitizing the fenced form
  (opening marker \<open>```json\<close>, newline, \<open>J\<close>, newline, closing marker) gives back \<open>J\<close>
  itself, so decoding the sanitized fenced form yields what decoding \<open>J\<close> directly yields,
  whatever the decoder.
\<close>

theorem C7_fenced_round_trip:
  "sanitize (fenced (123 # body @ [125])) = 123 # body @ [125] \<and>
   loads env (sanitize (fenced (123 # body @ [125]))) = loads env (123 # body @ [125])"
proof -
  have "sanitize (fenced (123 # body @ [125])) = 123 # body @ [125]"
    by (rule sanitize_fenced) (simp_all add: is_space_def)
  then show ?thesis by simp
qed

text \<open>
  C8.  For every text that contains no fence marker, the sanitizer returns the text with
  its surrounding whitespace trimmed and nothing else changed, and sanitizing twice is the
  same as sanitizing once.
\<close>

theorem C8_sanitize_idempotent:
  "\<not> has_fence t \<Longrightarrow> sanitize t = py_strip t \<and> sanitize (sanitize t) = sanitize t"
  by (simp add: sanitize_no_fence py_strip_no_fence py_strip_idem)

theorem C8_sanitize_idempotent_witness:
  "\<not> has_fence (lit ''  {\"a\": 1} '') \<and>
   sanitize (lit ''  {\"a\": 1} '') = py_strip (lit ''  {\"a\": 1} '') \<and>
   sanitize (sanitize (lit ''  {\"a\": 1} '')) = sanitize (lit ''  {\"a\": 1} '')"
proof -
  have h: "\<not> has_fence (lit ''  {\"a\": 1} '')"
    by (simp add: lit_def fence_def)
  show ?thesis using h C8_sanitize_idempotent [OF h] by blast
qed

section \<open>Evaluating sample runs\<close>

text \<open>The defining equations that a run on concrete inputs unfolds.\<close>

lemmas json_eval = json_loads_def lit_def skip_ws_def json_ws_def scan_number_def scan_int_part_def
  scan_frac_def scan_exp_def is_digit_def digits_val_def dict_of_def cons_str_def unescape_def
  decode_uXXXX_def hexval_def Let_def

lemmas run_eval = process_file_def run_passes_def normalizer_def convert_pdf_to_images_def
  pdf_try_body_def os_unlink_def convert_from_path_def get_random_api_key_def generate_content_def
  parse_json_response_def diag_path_def image_to_bytes_def temp_image_path_def page_path_def
  str_nat.simps
  demo_env_def demo_render_def demo_save_def demo_open_def demo_generate_def no_write_error_def
  render_fails_def save_fails_on_2_def disk_full_def env_render_fails_def env_save_fails_def
  env_disk_full_def demo_png_def demo_jpeg_def demo_pdf_def w0_def
  no_path_error_def no_text_error_def text_disk_full_def remove_denied_def
  env_text_disk_full_def env_remove_denied_def

lemmas san_eval = sanitize_def py_strip_def sub_open_fence_def close_match_def
  fence_def open_marker_def is_space_def

section \<open>Facts about convert_pdf_to_images\<close>

lemma save_pages_result:
  "save_pages env i pages images w = (r, images', w') \<Longrightarrow>
     images' = images @ map page_path [i ..< i + saved_upto env i pages] \<and>
     (\<forall>p. files w p \<noteq> None \<longrightarrow> files w' p \<noteq> None) \<and>
     calls w' = calls w \<and> draws w' = draws w \<and> api_key w' = api_key w"
proof (induction pages arbitrary: i images w)
  case Nil
  then show ?case by simp
next
  case (Cons img rest)
  show ?case
  proof (cases "save_png env (page_path i) img")
    case (Inl e)
    then show ?thesis using Cons.prems by simp
  next
    case (Inr b)
    let ?w1 = "w\<lparr>files := (files w)(page_path i \<mapsto> b)\<rparr>"
    have "save_pages env (i + 1) rest (images @ [page_path i]) ?w1 = (r, images', w')"
      using Cons.prems Inr by simp
    from Cons.IH [OF this]
    have ih: "images' = (images @ [page_path i]) @ map page_path [i + 1 ..< i + 1 + saved_upto env (i + 1) rest]"
      "\<forall>p. files ?w1 p \<noteq> None \<longrightarrow> files w' p \<noteq> None"
      "calls w' = calls ?w1" "draws w' = draws ?w1" "api_key w' = api_key ?w1"
      by blast+
    have "[i ..< i + saved_upto env i (img # rest)] = i # [i + 1 ..< i + 1 + saved_upto env (i + 1) rest]"
      using Inr by (simp add: upt_rec)
    then show ?thesis using ih by auto
  qed
qed


lemma convert_pdf_to_images_unbound:
  assumes "tmp_create env = Inl e \<or> (tmp_create env = Inr name \<and> tmp_write env name (fdata f) = Some e)"
  shows "fst (convert_pdf_to_images env f w) = Inl UnboundLocalError"
  using assms by (auto simp add: convert_pdf_to_images_def pdf_try_body_def Let_def)



section \<open>Facts about the extraction passes\<close>

lemma remove_images_frame:
  "remove_images env images w = (r, w') \<Longrightarrow>
     calls w' = calls w \<and> draws w' = draws w \<and> api_key w' = api_key w"
proof (induction images arbitrary: w)
  case Nil
  then show ?case by simp
next
  case (Cons p ps)
  show ?case
  proof (cases "p \<in> dom (files w)")
    case False
    then show ?thesis using Cons.prems Cons.IH [of w] by simp
  next
    case True
    show ?thesis
    proof (cases "os_remove env p")
      case None
      then have "remove_images env ps (w\<lparr>files := (files w)(p := None)\<rparr>) = (r, w')"
        using Cons.prems True by simp
      from Cons.IH [OF this] show ?thesis by simp
    next
      case (Some x)
      then show ?thesis using Cons.prems True by simp
    qed
  qed
qed


lemma parse_json_response_frame:
  "parse_json_response env images raw w = (r, w') \<Longrightarrow>
     calls w' = calls w \<and> draws w' = draws w \<and> api_key w' = api_key w"
  by (auto simp add: parse_json_response_def Let_def
      split: sum.splits if_splits option.splits prod.splits dest: remove_images_frame)


lemma convert_pdf_to_images_frame:
  "convert_pdf_to_images env f w = (r, w') \<Longrightarrow> calls w' = calls w \<and> draws w' = draws w"
  by (auto simp add: convert_pdf_to_images_def pdf_try_body_def os_unlink_def Let_def
      split: sum.splits option.splits prod.splits dest!: save_pages_result)

lemma normalizer_frame:
  "normalizer env file w = (r, w') \<Longrightarrow> calls w' = calls w \<and> draws w' = draws w"
  by (auto simp add: normalizer_def split: sum.splits if_splits dest: convert_pdf_to_images_frame)

lemma run_passes_keys:
  assumes "run_passes env images image_bytes w = (r, w')"
  shows "draws w' \<le> Suc (draws w) \<and>
     (\<forall>q \<in> set (drop (length (calls w)) (calls w')). req_key q = Some (chosen_key env w)) \<and>
     (\<not> isl r \<longrightarrow> draws w' = Suc (draws w) \<and>
        drop (length (calls w)) (calls w') =
          [pass_request (chosen_key env w) image_bytes json_prompt,
           pass_request (chosen_key env w) image_bytes summary_prompt,
           pass_request (chosen_key env w) image_bytes csv_prompt])"
proof (cases "GEMINI_API_KEYS env = []")
  case True
  then show ?thesis using assms by (auto simp add: run_passes_def get_random_api_key_def)
next
  case False
  let ?key = "chosen_key env w"
  let ?w1 = "w\<lparr>draws := Suc (draws w), api_key := Some ?key\<rparr>"
  let ?q1 = "pass_request ?key image_bytes json_prompt"
  let ?q2 = "pass_request ?key image_bytes summary_prompt"
  let ?q3 = "pass_request ?key image_bytes csv_prompt"
  let ?w2 = "?w1\<lparr>calls := calls w @ [?q1]\<rparr>"
  show ?thesis
  proof (cases "generate env (length (calls w)) ?q1")
    case (Inl e)
    then show ?thesis using assms False
      by (auto simp add: run_passes_def get_random_api_key_def generate_content_def Let_def
          chosen_key_def pass_request_def)
  next
    case (Inr raw)
    obtain p w3 where p: "parse_json_response env images raw ?w2 = (p, w3)" by fastforce
    from parse_json_response_frame [OF p]
    have f3: "calls w3 = calls w @ [?q1]" "draws w3 = Suc (draws w)" "api_key w3 = Some ?key"
      by simp_all
    show ?thesis
    proof (cases p)
      case (Inl e)
      then show ?thesis using assms False Inr p f3
        by (auto simp add: run_passes_def get_random_api_key_def generate_content_def Let_def
            chosen_key_def pass_request_def)
    next
      case data: (Inr extracted_data)
      show ?thesis using assms False Inr p f3 data
        by (auto simp add: run_passes_def get_random_api_key_def generate_content_def Let_def
            chosen_key_def pass_request_def split: sum.splits)
    qed
  qed
qed

section \<open>The Document Normalizer\<close>




text \<open>
  C10.  The claim is that convert_pdf_to_images raises no secondary error from its
  \<open>finally\<close> block when the write to the temporary file fails.  The run below has a full
  disk: the write raises \<open>OSError\<close> before line 37 assigns \<open>temp_pdf_path\<close>, the handler drops
  that error, and the \<open>finally\<close> block raises \<open>UnboundLocalError\<close>, which leaves the
  function.
\<close>

theorem C10_unbound_temp_pdf_path:
  "tmp_write env_disk_full (lit ''/tmp/tmpk3v9.pdf'') (fdata demo_pdf) = Some OSError \<and>
   fst (convert_pdf_to_images env_disk_full demo_pdf w0) = Inl UnboundLocalError"
  by (simp add: run_eval)



text \<open>
  C3.  The claim is that no page image outlives the run.  On a run whose JSON response
  decodes, \<open>temp_image.png\<close> is still on disk when process_file returns, and so is
  \<open>page_1.png\<close> for a PDF; the loop that removes the page images (lines 182-184) stands
  inside the \<open>JSONDecodeError\<close> handler, so the images are removed only on a run whose
  response does not decode, as the last line shows.
\<close>

theorem C3_page_image_persists:
  "fst (process_file (demo_env valid_json) demo_png w0)
     = Inr (JObject [(lit ''a'', JInt 1)], lit ''An invoice.'', lit ''Item 1,2,$10.00,$20.00'') \<and>
   files (snd (process_file (demo_env valid_json) demo_png w0)) (lit ''temp_image.png'')
     = Some [137, 80, 78, 71, 1, 2, 3] \<and>
   files (snd (process_file (demo_env valid_json) demo_pdf w0)) (lit ''page_1.png'')
     = Some [137, 80, 78, 71, 7] \<and>
   files (snd (process_file (demo_env truncated_json) demo_png w0)) (lit ''temp_image.png'')
     = None"
  by (simp add: run_eval san_eval valid_json_def truncated_json_def json_eval)

section \<open>The Extraction Client\<close>

text \<open>
  C4, as amended.  In every run of process_file at most one credential is drawn from the
  pool, before the first pass, and every request of the run is sent under that credential;
  a run that returns a result has drawn exactly once and has sent its three requests under
  the same credential.
\<close>

theorem C4_one_key_per_run:
  "process_file env file w = (r, w') \<Longrightarrow>
     draws w' \<le> Suc (draws w) \<and>
     (\<forall>q \<in> set (drop (length (calls w)) (calls w')). req_key q = Some (chosen_key env w)) \<and>
     (\<not> isl r \<longrightarrow> draws w' = Suc (draws w) \<and>
        map req_key (drop (length (calls w)) (calls w')) =
          [Some (chosen_key env w), Some (chosen_key env w), Some (chosen_key env w)])"
proof -
  assume run: "process_file env file w = (r, w')"
  obtain n w1 where n: "normalizer env file w = (n, w1)" by fastforce
  from normalizer_frame [OF n] have f1: "calls w1 = calls w" "draws w1 = draws w" by simp_all
  show ?thesis
  proof (cases n)
    case (Inl e)
    then show ?thesis using run n f1 by (auto simp add: process_file_def)
  next
    case (Inr images)
    show ?thesis
    proof (cases "image_bytes_list w1 images")
      case (Inl e)
      then show ?thesis using run n f1 Inr by (auto simp add: process_file_def)
    next
      case bytes: (Inr image_bytes)
      have "run_passes env images image_bytes w1 = (r, w')"
        using run n Inr bytes by (simp add: process_file_def)
      from run_passes_keys [OF this] show ?thesis
        using f1 by (auto simp add: chosen_key_def pass_request_def)
    qed
  qed
qed

text \<open>
  The amended statement at a run that returns a result.
\<close>

theorem C4_one_key_per_run_witness:
  "process_file (demo_env valid_json) demo_png w0
     = (fst (process_file (demo_env valid_json) demo_png w0),
        snd (process_file (demo_env valid_json) demo_png w0)) \<and>
   \<not> isl (fst (process_file (demo_env valid_json) demo_png w0)) \<and>
   draws (snd (process_file (demo_env valid_json) demo_png w0)) = Suc (draws w0) \<and>
   map req_key (drop (length (calls w0)) (calls (snd (process_file (demo_env valid_json) demo_png w0))))
     = [Some (chosen_key (demo_env valid_json) w0), Some (chosen_key (demo_env valid_json) w0),
        Some (chosen_key (demo_env valid_json) w0)]"
proof -
  have h: "process_file (demo_env valid_json) demo_png w0
     = (fst (process_file (demo_env valid_json) demo_png w0),
        snd (process_file (demo_env valid_json) demo_png w0))" by simp
  have ok: "\<not> isl (fst (process_file (demo_env valid_json) demo_png w0))"
    by (simp add: run_eval san_eval valid_json_def json_eval)
  show ?thesis using h ok C4_one_key_per_run [OF h] by blast
qed

text \<open>
  C4 as stated fails.  With a pool of two keys and the draws 0, 1, 2, ..., a selection per
  call would send the second request under \<open>key-B\<close>; the run makes one draw and sends all
  three requests under \<open>key-A\<close>.
\<close>

theorem C4_counterexample:
  "GEMINI_API_KEYS (demo_env valid_json) ! (rng (demo_env valid_json) 0 mod 2) = lit ''key-A'' \<and>
   GEMINI_API_KEYS (demo_env valid_json) ! (rng (demo_env valid_json) 1 mod 2) = lit ''key-B'' \<and>
   draws (snd (process_file (demo_env valid_json) demo_png w0)) = 1 \<and>
   map req_key (calls (snd (process_file (demo_env valid_json) demo_png w0)))
     = [Some (lit ''key-A''), Some (lit ''key-A''), Some (lit ''key-A'')]"
  by (simp add: run_eval san_eval valid_json_def json_eval)

section \<open>The Response Sanitizer and Parser\<close>




text \<open>
  C2.  The claim is that a prose prefix before fenced JSON is stripped and the inner
  object is delivered.  On \<open>Here is the data:\<close>, newline, a fenced \<open>{"a": 1}\<close>, the sanitizer
  removes the closing fence only: the opening marker is not at the start of the text, so
  the prefix and the marker stay, the decoder rejects the text, and the run delivers the
  empty mapping instead of the inner object (which the decoder does read from \<open>{"a": 1}\<close>
  alone).
\<close>

theorem C2_prose_prefix_not_stripped:
  "sanitize prose_json = lit ''Here is the data:\<newline>```json\<newline>{\"a\": 1}'' \<and>
   json_loads (sanitize prose_json) = Inl JSONDecodeError \<and>
   json_loads (lit ''{\"a\": 1}'') = Inr (JObject [(lit ''a'', JInt 1)]) \<and>
   fst (process_file (demo_env prose_json) demo_png w0)
     = Inr (JObject [], lit ''An invoice.'', lit ''Item 1,2,$10.00,$20.00'')"
  by (simp add: run_eval san_eval prose_json_def json_eval)

section \<open>The Extraction Orchestrator\<close>




end
